theory Spec2Isabelle
  imports Complex_Main "HOL-Library.Multiset"
begin

section \<open>Python values and exceptions\<close>

text \<open>
  The values that can reach \<open>SagaAssembler.__init__\<close> as \<open>retry_attempts\<close>.
  The constructor only looks at the truth value of its argument and at whether it is
  an instance of \<open>int\<close> or \<open>float\<close>; \<open>bool\<close> is a subclass of \<open>int\<close>.
  A float is represented by the real number it denotes (the non-finite floats, all of
  them true, are left out).
\<close>

datatype pyval = PyNone | PyBool bool | PyInt int | PyFloat real | PyStr string
  | PyList "pyval list"

fun truthy :: "pyval \<Rightarrow> bool" where
  "truthy PyNone = False"
| "truthy (PyBool b) = b"
| "truthy (PyInt i) = (i \<noteq> 0)"
| "truthy (PyFloat x) = (x \<noteq> 0)"
| "truthy (PyStr s) = (s \<noteq> [])"
| "truthy (PyList xs) = (xs \<noteq> [])"

fun isinstance_int :: "pyval \<Rightarrow> bool" where
  "isinstance_int (PyBool b) = True"
| "isinstance_int (PyInt i) = True"
| "isinstance_int v = False"

fun isinstance_float :: "pyval \<Rightarrow> bool" where
  "isinstance_float (PyFloat x) = True"
| "isinstance_float v = False"

fun type_name :: "pyval \<Rightarrow> string" where
  "type_name PyNone = ''NoneType''"
| "type_name (PyBool b) = ''bool''"
| "type_name (PyInt i) = ''int''"
| "type_name (PyFloat x) = ''float''"
| "type_name (PyStr s) = ''str''"
| "type_name (PyList xs) = ''list''"

definition quoted :: "string \<Rightarrow> string" where
  "quoted s = [CHR 0x27] @ s @ [CHR 0x27]"

text \<open>
  An instance of \<open>Exception\<close>: its class name and the text \<open>str\<close> gives for it.
  Every \<open>except\<close> clause of the program is \<open>except Exception\<close>; signals outside that
  class (\<open>KeyboardInterrupt\<close>, \<open>SystemExit\<close>) are not modelled.
\<close>

datatype pyexception = PyException (exc_class: string) (str: string)

text \<open>What \<open>SagaException\<close> receives as \<open>operation_error\<close>: a message or a caught exception.\<close>

datatype operation_error = Message string | Caught pyexception

record 'v SagaException =
  operation_name :: "string option"
  operation_error :: operation_error
  compensation_success_result :: "'v list option"
  compensation_errors :: "string list option"

definition SagaException ::
  "operation_error \<Rightarrow> string option \<Rightarrow> 'v list option \<Rightarrow> string list option \<Rightarrow> 'v SagaException" where
  "SagaException err name succ errs =
     \<lparr>operation_name = name, operation_error = err,
      compensation_success_result = succ, compensation_errors = errs\<rparr>"

text \<open>An exception raised out of a method: a \<open>SagaException\<close> or another Python exception.\<close>

datatype 'v raised = Saga "'v SagaException" | Other pyexception

section \<open>Callables\<close>

text \<open>
  A call either returns a value or raises. A function object has a \<open>__name__\<close> and a
  body; the body receives the positional arguments bound by \<open>partial\<close>, the list that
  \<open>__retry_operation\<close> stores in the function's attribute \<open>saga_results\<close>, and the state
  of the world outside the saga, which it may change.
\<close>

datatype 'v outcome = Returned 'v | Raised pyexception

record ('a, 'v, 'w) pyfunction =
  fname :: string
  fbody :: "'a list \<Rightarrow> 'v list \<Rightarrow> 'w \<Rightarrow> 'v outcome \<times> 'w"

record ('a, 'v, 'w) partial =
  func :: "('a, 'v, 'w) pyfunction"
  args :: "'a list"

text \<open>
  The positional values \<open>operation\<close> can be given:
  \<^item> a plain function (\<open>types.FunctionType\<close>);
  \<^item> a callable of another type that has no \<open>__iter__\<close> (a built-in, a bound method, a
    \<open>partial\<close>);
  \<^item> a value that is neither callable nor iterable;
  \<^item> an empty list, tuple or string;
  \<^item> a non-empty list, tuple or string: its first element and the remaining elements (the
    elements of a string are strings, never functions);
  \<^item> any other object with \<open>__iter__\<close> (a set, a dictionary, a generator, an instance of a
    class), given by what \<open>arg[0]\<close> does on it and by what \<open>partial(*arg)\<close> does on it, which
    unpacks it by iteration: each raises or returns. Such an object whose first unpacked
    item is a callable that is not a plain function is left out.
\<close>

datatype sequence_type = ListType | TupleType | StrType

fun index_error :: "sequence_type \<Rightarrow> pyexception" where
  "index_error ListType = PyException ''IndexError'' ''list index out of range''"
| "index_error TupleType = PyException ''IndexError'' ''tuple index out of range''"
| "index_error StrType = PyException ''IndexError'' ''string index out of range''"

datatype ('a, 'v, 'w) pyobject =
    Function "('a, 'v, 'w) pyfunction"
  | OtherCallable
  | Plain 'a
  | EmptySequence sequence_type
  | Sequence "('a, 'v, 'w) pyobject" "'a list"
  | OtherIterable "pyexception + ('a, 'v, 'w) pyobject" "pyexception + ('a, 'v, 'w) partial"

fun callable :: "('a, 'v, 'w) pyobject \<Rightarrow> bool" where
  "callable (Function f) = True"
| "callable OtherCallable = True"
| "callable x = False"

fun has_iter :: "('a, 'v, 'w) pyobject \<Rightarrow> bool" where
  "has_iter (EmptySequence t) = True"
| "has_iter (Sequence x xs) = True"
| "has_iter (OtherIterable item unpacked) = True"
| "has_iter x = False"

section \<open>The saga\<close>

record ('a, 'v, 'w) saga =
  retry_attempts :: pyval
  operations :: "('a, 'v, 'w) partial list list"
  saga_results :: "'v list"

definition init :: "pyval \<Rightarrow> 'v SagaException + ('a, 'v, 'w) saga" where
  "init retry_attempts_arg =
     (if truthy retry_attempts_arg
         \<and> \<not> (isinstance_int retry_attempts_arg \<or> isinstance_float retry_attempts_arg)
      then Inl (SagaException
             (Message (''`retry_attempts` cannot be <class '' @ quoted (type_name retry_attempts_arg)
                       @ ''> type. Integer type is required.''))
             None None None)
      else Inr \<lparr>retry_attempts = (if truthy retry_attempts_arg then retry_attempts_arg else PyInt 1),
                operations = [], saga_results = []\<rparr>)"

subsection \<open>Declaring operations\<close>

text \<open>
  \<open>arg[0]\<close> on a positional value. \<open>__check_operation\<close> evaluates it only for a value that has
  \<open>__iter__\<close>; the values without \<open>__iter__\<close> modelled here cannot be indexed.
\<close>

fun first_item :: "('a, 'v, 'w) pyobject \<Rightarrow> pyexception + ('a, 'v, 'w) pyobject" where
  "first_item (Sequence x xs) = Inr x"
| "first_item (EmptySequence t) = Inl (index_error t)"
| "first_item (OtherIterable item unpacked) = item"
| "first_item x = Inl (PyException ''TypeError'' ''object is not subscriptable'')"

text \<open>
  \<open>partial(*arg)\<close>, which \<open>__check_operation\<close> evaluates only when \<open>arg[0]\<close> is a plain function:
  for a list or tuple the first unpacked item is \<open>arg[0]\<close> and the remaining elements are
  bound as arguments. The last two equations are for completeness: \<open>__check_operation\<close>
  never reaches \<open>partial(*arg)\<close> on those values.
\<close>

fun partial_unpacked :: "('a, 'v, 'w) pyobject \<Rightarrow> pyexception + ('a, 'v, 'w) partial" where
  "partial_unpacked (Sequence (Function f) xs) = Inr \<lparr>func = f, args = xs\<rparr>"
| "partial_unpacked (OtherIterable item unpacked) = unpacked"
| "partial_unpacked (EmptySequence t) =
     Inl (PyException ''TypeError'' (''type '' @ quoted ''partial'' @ '' takes at least one argument''))"
| "partial_unpacked x = Inl (PyException ''TypeError'' ''the first argument must be callable'')"

definition add_function_error :: "'v raised" where
  "add_function_error =
     Saga (SagaException (Message ''Please add function in operation argument.'') None None None)"

text \<open>
  \<open>isinstance(x, types.FunctionType)\<close> is the case \<open>Function f\<close>; \<open>partial(arg)\<close> binds no
  argument.
\<close>

definition check_operation :: "('a, 'v, 'w) pyobject \<Rightarrow> 'v raised + ('a, 'v, 'w) partial" where
  "check_operation arg =
     (if has_iter arg then
        (case first_item arg of
           Inl e \<Rightarrow> Inl (Other e)
         | Inr x \<Rightarrow>
             (case x of
                Function f \<Rightarrow>
                  (case partial_unpacked arg of Inl e \<Rightarrow> Inl (Other e) | Inr p \<Rightarrow> Inr p)
              | _ \<Rightarrow> Inl add_function_error))
      else
        (case arg of
           Function f \<Rightarrow> Inr \<lparr>func = f, args = []\<rparr>
         | _ \<Rightarrow> Inl add_function_error))"

text \<open>The list comprehension of \<open>operation\<close>: the first argument that fails ends it.\<close>

fun check_all :: "('a, 'v, 'w) pyobject list \<Rightarrow> 'v raised + ('a, 'v, 'w) partial list" where
  "check_all [] = Inr []"
| "check_all (x # xs) =
     (case check_operation x of
        Inl e \<Rightarrow> Inl e
      | Inr p \<Rightarrow> (case check_all xs of Inl e \<Rightarrow> Inl e | Inr ps \<Rightarrow> Inr (p # ps)))"

text \<open>
  \<open>operation\<close> returns the exception it raises, if any, and the saga object as the call
  leaves it (the object that \<open>return self\<close> hands back when nothing is raised).
\<close>

definition operation ::
  "('a, 'v, 'w) pyobject list \<Rightarrow> ('a, 'v, 'w) saga \<Rightarrow> 'v raised option \<times> ('a, 'v, 'w) saga" where
  "operation arg_list self =
     (if arg_list = [] then
        (Some (Saga (SagaException (Message ''Operation can not be empty'') None None None)), self)
      else if length arg_list > 2 then
        (Some (Saga (SagaException
                 (Message ''Only two operations (action, compensation) are allowed.'') None None None)),
         self)
      else case check_all arg_list of
             Inl e \<Rightarrow> (Some e, self)
           | Inr t \<Rightarrow> (None, self\<lparr>operations := operations self @ [t]\<rparr>))"

section \<open>Running a saga\<close>

text \<open>
  The state a run works on: the saga object, the world outside it, and a record of every
  call the run makes. A call is recorded with the index of the operation in the registry,
  the position of the callable inside the operation's tuple (0 is the action, 1 the
  compensation) and whether it returned.
\<close>

datatype call = Call (call_index: nat) (call_position: nat) (call_returned: bool)

record ('a, 'v, 'w) machine =
  self :: "('a, 'v, 'w) saga"
  world :: 'w
  calls :: "call list"

fun is_returned :: "'v outcome \<Rightarrow> bool" where
  "is_returned (Returned v) = True"
| "is_returned (Raised e) = False"

definition call_partial :: "('a, 'v, 'w) partial \<Rightarrow> 'v list \<Rightarrow> 'w \<Rightarrow> 'v outcome \<times> 'w" where
  "call_partial p results w = fbody (func p) (args p) results w"

text \<open>Calling the callable at position \<open>pos\<close> of operation \<open>i\<close>.\<close>

definition invoke ::
  "nat \<Rightarrow> nat \<Rightarrow> ('a, 'v, 'w) partial \<Rightarrow> ('a, 'v, 'w) machine \<Rightarrow> 'v outcome \<times> ('a, 'v, 'w) machine" where
  "invoke i pos p m =
     (case call_partial p (saga_results (self m)) (world m) of
        (r, w) \<Rightarrow> (r, m\<lparr>world := w, calls := calls m @ [Call i pos (is_returned r)]\<rparr>))"

definition append_result :: "'v \<Rightarrow> ('a, 'v, 'w) machine \<Rightarrow> ('a, 'v, 'w) machine" where
  "append_result v m = m\<lparr>self := (self m)\<lparr>saga_results := saga_results (self m) @ [v]\<rparr>\<rparr>"

subsection \<open>Retrying one action\<close>

text \<open>\<open>range(self.__retry_attempts)\<close>: the number of iterations, or the \<open>TypeError\<close> it raises.\<close>

definition not_an_integer :: "pyval \<Rightarrow> pyexception" where
  "not_an_integer v =
     PyException ''TypeError'' (quoted (type_name v) @ '' object cannot be interpreted as an integer'')"

fun range_length :: "pyval \<Rightarrow> pyexception + nat" where
  "range_length (PyInt i) = Inr (nat i)"
| "range_length (PyBool b) = Inr (if b then 1 else 0)"
| "range_length v = Inl (not_an_integer v)"

text \<open>\<open>raise error\<close> after the loop: \<open>error\<close> is still \<open>None\<close> when the loop body never ran.\<close>

definition raise_error :: "pyexception option \<Rightarrow> pyexception" where
  "raise_error error =
     (case error of
        None \<Rightarrow> PyException ''TypeError'' ''exceptions must derive from BaseException''
      | Some e \<Rightarrow> e)"

fun retry_loop ::
  "nat \<Rightarrow> pyexception option \<Rightarrow> nat \<Rightarrow> ('a, 'v, 'w) partial \<Rightarrow> ('a, 'v, 'w) machine
   \<Rightarrow> (pyexception + 'v) \<times> ('a, 'v, 'w) machine" where
  "retry_loop 0 error i f m = (Inl (raise_error error), m)"
| "retry_loop (Suc n) error i f m =
     (case invoke i 0 f m of
        (Returned response, m1) \<Rightarrow> (Inr response, append_result response m1)
      | (Raised err, m1) \<Rightarrow> retry_loop n (Some err) i f m1)"

definition retry_operation ::
  "nat \<Rightarrow> ('a, 'v, 'w) partial \<Rightarrow> ('a, 'v, 'w) machine \<Rightarrow> (pyexception + 'v) \<times> ('a, 'v, 'w) machine" where
  "retry_operation i f m =
     (case range_length (retry_attempts (self m)) of
        Inl e \<Rightarrow> (Inl e, m)
      | Inr n \<Rightarrow> retry_loop n None i f m)"

subsection \<open>Orchestrator\<close>

definition or_None :: "'x list \<Rightarrow> 'x list option" where
  "or_None xs = (if xs = [] then None else Some xs)"

text \<open>
  The loop over \<open>range(last_operation_index - 1, -1, -1)\<close>: the first argument counts the
  indices still to visit, so \<open>Suc j\<close> visits index \<open>j\<close> next.
\<close>

fun orchestrator_compensation_loop ::
  "nat \<Rightarrow> 'v list \<Rightarrow> string list \<Rightarrow> ('a, 'v, 'w) machine
   \<Rightarrow> ('v list \<times> string list) \<times> ('a, 'v, 'w) machine" where
  "orchestrator_compensation_loop 0 succ excs m = ((succ, excs), m)"
| "orchestrator_compensation_loop (Suc j) succ excs m =
     (let t = operations (self m) ! j in
      if length t \<noteq> 0 then
        (case invoke j (length t - 1) (last t) m of
           (Returned v, m1) \<Rightarrow> orchestrator_compensation_loop j (succ @ [v]) excs m1
         | (Raised compensation_error, m1) \<Rightarrow>
             orchestrator_compensation_loop j succ (excs @ [str compensation_error]) m1)
      else orchestrator_compensation_loop j succ excs m)"

definition execute_orchestrator_compensation ::
  "nat \<Rightarrow> ('a, 'v, 'w) machine \<Rightarrow> ('v list option \<times> string list option) \<times> ('a, 'v, 'w) machine" where
  "execute_orchestrator_compensation last_operation_index m =
     (case orchestrator_compensation_loop last_operation_index [] [] m of
        ((succ, excs), m1) \<Rightarrow> ((or_None succ, or_None excs), m1))"

definition no_operations :: "'v SagaException" where
  "no_operations = SagaException (Message ''Set operation first to execute the saga.'') None None None"

fun orchestrator_loop ::
  "nat list \<Rightarrow> 'v list \<Rightarrow> ('a, 'v, 'w) machine \<Rightarrow> ('v SagaException + 'v list) \<times> ('a, 'v, 'w) machine" where
  "orchestrator_loop [] response m = (Inr response, m)"
| "orchestrator_loop (operation_index # rest) response m =
     (case retry_operation operation_index (operations (self m) ! operation_index ! 0) m of
        (Inr v, m1) \<Rightarrow> orchestrator_loop rest (response @ [v]) m1
      | (Inl op_error, m1) \<Rightarrow>
          (case execute_orchestrator_compensation operation_index m1 of
             ((comp_success_result, comp_errors), m2) \<Rightarrow>
               (Inl (SagaException (Caught op_error)
                       (Some (fname (func (operations (self m) ! operation_index ! 0))))
                       comp_success_result comp_errors), m2)))"

definition orchestrator_execute ::
  "('a, 'v, 'w) machine \<Rightarrow> ('v SagaException + 'v list) \<times> ('a, 'v, 'w) machine" where
  "orchestrator_execute m =
     (if operations (self m) = [] then (Inl no_operations, m)
      else orchestrator_loop [0..<length (operations (self m))] [] m)"

subsection \<open>Choreography\<close>

text \<open>
  The thread pool. Each submitted task runs on a worker thread; the order in which the
  workers get to run is not fixed by the program, so it is a parameter: \<open>sched\<close> lists
  task positions, and \<open>run_order\<close> completes it to an order of all \<open>n\<close> submitted tasks
  (positions out of range and repetitions are dropped, tasks not listed run last). A task
  runs as one step. Leaving the \<open>with\<close> block waits for every task.
\<close>

definition run_order :: "nat list \<Rightarrow> nat \<Rightarrow> nat list" where
  "run_order sched n =
     remdups (filter (\<lambda>i. i < n) sched) @ filter (\<lambda>i. i \<notin> set sched) [0..<n]"

fun run_tasks ::
  "nat list \<Rightarrow> (nat \<Rightarrow> 's \<Rightarrow> 'r \<times> 's) \<Rightarrow> 's \<Rightarrow> (nat \<times> 'r) list \<times> 's" where
  "run_tasks [] task m = ([], m)"
| "run_tasks (i # rest) task m =
     (case task i m of
        (r, m1) \<Rightarrow> (case run_tasks rest task m1 of (rs, m2) \<Rightarrow> ((i, r) # rs, m2)))"

text \<open>
  \<open>future.result()\<close> for the task submitted at position \<open>i\<close>. Every position below \<open>n\<close>
  is in \<open>run_order sched n\<close>, so the second case is never taken there.
\<close>

definition result :: "(nat \<times> (pyexception + 'r)) list \<Rightarrow> nat \<Rightarrow> pyexception + 'r" where
  "result finished i =
     (case map_of finished i of
        Some r \<Rightarrow> r
      | None \<Rightarrow> Inl (PyException ''CancelledError'' []))"

text \<open>
  The dictionary built by \<open>__SagaThreadExecutor.submit\<close>; \<open>function_future\<close> is its entry
  \<open>"function"\<close>, the future, given as what its \<open>result()\<close> returns or raises. The second
  record is the dictionary \<open>__prepare_thread_result\<close> builds for a failure.
\<close>

record 'v thread =
  function_index :: nat
  function_future :: "pyexception + 'v"
  function_name :: string

record failed_result =
  failed_function_index :: nat
  failed_function_name :: string
  error :: pyexception

record SagaThreadException =
  success_results :: "nat list"
  failed_results :: "failed_result list"

fun prepare_loop ::
  "'v thread list \<Rightarrow> 'v list \<Rightarrow> nat list \<Rightarrow> failed_result list
   \<Rightarrow> 'v list \<times> nat list \<times> failed_result list" where
  "prepare_loop [] success success_index errors = (success, success_index, errors)"
| "prepare_loop (t # threads) success success_index errors =
     (case function_future t of
        Inr v \<Rightarrow> prepare_loop threads (success @ [v]) (success_index @ [function_index t]) errors
      | Inl e \<Rightarrow>
          prepare_loop threads success success_index
            (errors @ [\<lparr>failed_function_index = function_index t,
                        failed_function_name = function_name t, error = e\<rparr>]))"

definition prepare_thread_result :: "'v thread list \<Rightarrow> SagaThreadException + 'v list" where
  "prepare_thread_result threads =
     (case prepare_loop threads [] [] [] of
        (success, success_index, errors) \<Rightarrow>
          if errors \<noteq> [] then Inl \<lparr>success_results = success_index, failed_results = errors\<rparr>
          else Inr success)"

text \<open>The tasks of \<open>choreography_execute\<close>: one \<open>__retry_operation\<close> per operation.\<close>

definition submit_actions ::
  "nat list \<Rightarrow> ('a, 'v, 'w) machine \<Rightarrow> 'v thread list \<times> ('a, 'v, 'w) machine" where
  "submit_actions sched m =
     (let ops = operations (self m) in
      case run_tasks (run_order sched (length ops)) (\<lambda>i. retry_operation i (ops ! i ! 0)) m of
        (finished, m1) \<Rightarrow>
          (map (\<lambda>i. \<lparr>function_index = i, function_future = result finished i,
                      function_name = fname (func (ops ! i ! 0))\<rparr>) [0..<length ops], m1))"

text \<open>The indices whose compensation is submitted.\<close>

definition compensation_indices :: "('a, 'v, 'w) saga \<Rightarrow> nat list \<Rightarrow> nat list" where
  "compensation_indices sg success_index =
     filter (\<lambda>compensation_index. length (operations sg ! compensation_index) = 2) success_index"

definition outcome_result :: "'v outcome \<Rightarrow> pyexception + 'v" where
  "outcome_result r = (case r of Returned v \<Rightarrow> Inr v | Raised e \<Rightarrow> Inl e)"

definition submit_compensations ::
  "nat list \<Rightarrow> nat list \<Rightarrow> ('a, 'v, 'w) machine \<Rightarrow> 'v thread list \<times> ('a, 'v, 'w) machine" where
  "submit_compensations sched success_index m =
     (let ops = operations (self m); cs = compensation_indices (self m) success_index in
      case run_tasks (run_order sched (length cs))
             (\<lambda>k m'. case invoke (cs ! k) (length (ops ! (cs ! k)) - 1) (last (ops ! (cs ! k))) m' of
                        (r, m1) \<Rightarrow> (outcome_result r, m1)) m of
        (finished, m1) \<Rightarrow>
          (map (\<lambda>k. \<lparr>function_index = cs ! k, function_future = result finished k,
                      function_name = fname (func (last (ops ! (cs ! k))))\<rparr>) [0..<length cs], m1))"

fun collect_compensations ::
  "'v thread list \<Rightarrow> 'v list \<Rightarrow> string list \<Rightarrow> 'v list \<times> string list" where
  "collect_compensations [] succ excs = (succ, excs)"
| "collect_compensations (t # threads) succ excs =
     (case function_future t of
        Inr v \<Rightarrow> collect_compensations threads (succ @ [v]) excs
      | Inl e \<Rightarrow> collect_compensations threads succ (excs @ [str e]))"

definition execute_choreography_compensation ::
  "nat list \<Rightarrow> nat list \<Rightarrow> ('a, 'v, 'w) machine
   \<Rightarrow> ('v list option \<times> string list option) \<times> ('a, 'v, 'w) machine" where
  "execute_choreography_compensation sched success_index m =
     (case submit_compensations sched success_index m of
        (compensation_threads, m1) \<Rightarrow>
          (case collect_compensations compensation_threads [] [] of
             (succ, excs) \<Rightarrow> ((or_None succ, or_None excs), m1)))"

text \<open>
  \<open>sched\<close> orders the action tasks, \<open>sched_comp\<close> the compensation tasks.
  \<open>failed_results\<close> is not empty when \<open>__SagaThreadException\<close> is raised, so
  \<open>failed_results[0]\<close> exists.
\<close>

definition choreography_execute ::
  "nat list \<Rightarrow> nat list \<Rightarrow> ('a, 'v, 'w) machine
   \<Rightarrow> ('v SagaException + 'v list) \<times> ('a, 'v, 'w) machine" where
  "choreography_execute sched sched_comp m =
     (if operations (self m) = [] then (Inl no_operations, m)
      else
        (case submit_actions sched m of
           (threads, m1) \<Rightarrow>
             (case prepare_thread_result threads of
                Inr success \<Rightarrow> (Inr success, m1)
              | Inl thread_error \<Rightarrow>
                  (case execute_choreography_compensation sched_comp (success_results thread_error) m1 of
                     ((comp_success_result, comp_errors), m2) \<Rightarrow>
                       (Inl (SagaException
                               (Caught (error (hd (failed_results thread_error))))
                               (Some (failed_function_name (hd (failed_results thread_error))))
                               comp_success_result comp_errors), m2)))))"

text \<open>
  Three properties of a positional value: it is a plain function, or a list or tuple whose
  first element is a plain function (\<open>function_first\<close>); it has no \<open>__iter__\<close> and is not a
  plain function, or it is a non-empty list, tuple or string whose first element is not a
  plain function (\<open>no_function\<close>); and the \<open>partial\<close> \<open>p\<close> holds the function of the value with
  the remaining elements of the value as its arguments (\<open>binds\<close>).
\<close>

fun function_first :: "('a, 'v, 'w) pyobject \<Rightarrow> bool" where
  "function_first (Function f) = True"
| "function_first (Sequence (Function f) xs) = True"
| "function_first x = False"

fun no_function :: "('a, 'v, 'w) pyobject \<Rightarrow> bool" where
  "no_function OtherCallable = True"
| "no_function (Plain a) = True"
| "no_function (Sequence (Function f) xs) = False"
| "no_function (Sequence x xs) = True"
| "no_function x = False"

definition binds :: "('a, 'v, 'w) pyobject \<Rightarrow> ('a, 'v, 'w) partial \<Rightarrow> bool" where
  "binds arg p =
     ((arg = Function (func p) \<and> args p = []) \<or> arg = Sequence (Function (func p)) (args p))"

text \<open>
  The attempts of one \<open>__retry_operation\<close>: \<open>failed_attempt\<close> is the state an attempt that raised
  leaves behind, and \<open>attempt i f m k\<close> is what the call of attempt \<open>k\<close> (counted from 0) does
  when all attempts before it raised.
\<close>

definition failed_attempt ::
  "nat \<Rightarrow> ('a, 'v, 'w) partial \<Rightarrow> ('a, 'v, 'w) machine \<Rightarrow> ('a, 'v, 'w) machine" where
  "failed_attempt i f m = snd (invoke i 0 f m)"

definition attempt ::
  "nat \<Rightarrow> ('a, 'v, 'w) partial \<Rightarrow> ('a, 'v, 'w) machine \<Rightarrow> nat \<Rightarrow> 'v outcome" where
  "attempt i f m k = fst (invoke i 0 f ((failed_attempt i f ^^ k) m))"

text \<open>
  What \<open>operation\<close> guarantees of the registry: every operation is a tuple of one or two
  callables. \<open>slot\<close> is the callable a recorded call went to.
\<close>

definition declared :: "('a, 'v, 'w) saga \<Rightarrow> bool" where
  "declared sg = (\<forall>t\<in>set (operations sg). length t = 1 \<or> length t = 2)"

definition slot :: "call \<Rightarrow> nat \<times> nat" where
  "slot c = (call_index c, call_position c)"

section \<open>Example sagas\<close>

text \<open>
  The world of the examples is a counter of the calls made so far; every call adds one.
  \<open>always name v\<close> returns \<open>v\<close>, \<open>never name\<close> raises, and \<open>from_call name k v\<close> raises until
  the counter has reached \<open>k\<close> and returns \<open>v\<close> from then on.
\<close>

definition always :: "string \<Rightarrow> nat \<Rightarrow> (nat, nat, nat) pyfunction" where
  "always name v = \<lparr>fname = name, fbody = (\<lambda>xs results w. (Returned v, Suc w))\<rparr>"

definition never :: "string \<Rightarrow> (nat, nat, nat) pyfunction" where
  "never name =
     \<lparr>fname = name,
      fbody = (\<lambda>xs results w. (Raised (PyException ''ValueError'' (name @ '' failed'')), Suc w))\<rparr>"

definition from_call :: "string \<Rightarrow> nat \<Rightarrow> nat \<Rightarrow> (nat, nat, nat) pyfunction" where
  "from_call name k v =
     \<lparr>fname = name,
      fbody = (\<lambda>xs results w.
                 (if k \<le> w then Returned v
                  else Raised (PyException ''ValueError'' (name @ '' failed'')), Suc w))\<rparr>"

definition bare :: "(nat, nat, nat) pyfunction \<Rightarrow> (nat, nat, nat) partial" where
  "bare f = \<lparr>func = f, args = []\<rparr>"

definition empty_saga :: "(nat, nat, nat) saga" where
  "empty_saga = \<lparr>retry_attempts = PyInt 1, operations = [], saga_results = []\<rparr>"

definition start :: "pyval \<Rightarrow> (nat, nat, nat) partial list list \<Rightarrow> (nat, nat, nat) machine" where
  "start r ops =
     \<lparr>self = \<lparr>retry_attempts = r, operations = ops, saga_results = []\<rparr>, world = 0, calls = []\<rparr>"

text \<open>
  The saga of the specification's example, with a compensation \<open>release\<close> that raises, and a
  saga whose first operation has no compensation.
\<close>

definition booking :: "(nat, nat, nat) partial list list" where
  "booking =
     [[bare (always ''debit'' 1), bare (always ''credit'' 2)],
      [bare (always ''reserve'' 3), bare (never ''release'')],
      [bare (never ''ship'')]]"

definition no_undo :: "(nat, nat, nat) partial list list" where
  "no_undo = [[bare (always ''debit'' 1)], [bare (never ''ship'')]]"

text \<open>A saga whose actions always return.\<close>

definition three_actions :: "(nat, nat, nat) partial list list" where
  "three_actions =
     [[bare (always ''debit'' 10)],
      [bare (always ''reserve'' 20), bare (always ''release'' 0)],
      [bare (always ''ship'' 30)]]"

text \<open>
  A saga in which two actions fail, and a saga with one failing action among operations
  with and without a compensation.
\<close>

definition two_failures :: "(nat, nat, nat) partial list list" where
  "two_failures =
     [[bare (always ''debit'' 1), bare (always ''credit'' 2)],
      [bare (never ''reserve'')],
      [bare (never ''ship'')]]"

definition mixed :: "(nat, nat, nat) partial list list" where
  "mixed =
     [[bare (always ''debit'' 1), bare (always ''credit'' 2)],
      [bare (always ''audit'' 3)],
      [bare (never ''ship''), bare (always ''unship'' 4)],
      [bare (always ''reserve'' 5), bare (always ''release'' 6)]]"

section \<open>Construction\<close>

text \<open>
  Claim C8 says that construction fails for every \<open>retry_attempts\<close> that is not a number or not
  positive. The constructor makes no check of the sign: \<open>-3\<close> is accepted and stored as it is.
\<close>

theorem init_negative_counterexample:
  "(init (PyInt (- 3)) :: nat SagaException + (nat, nat, nat) saga)
     = Inr \<lparr>retry_attempts = PyInt (- 3), operations = [], saga_results = []\<rparr>"
  by (simp add: init_def)

text \<open>
  Claim C8, as the code has it: construction fails for every true value that is neither an
  \<open>int\<close> nor a \<open>float\<close>; with \<open>retry_attempts\<close> omitted (\<open>None\<close>) the saga has one attempt; for every
  \<open>int\<close> or \<open>float\<close> construction succeeds, a zero becoming 1 and any other value, negative
  ones included, being stored as given.
\<close>

theorem init_cases:
  "(truthy v \<and> \<not> isinstance_int v \<and> \<not> isinstance_float v \<longrightarrow>
      isl (init v :: 'v SagaException + ('a, 'v, 'w) saga))
   \<and> (init PyNone :: 'v SagaException + ('a, 'v, 'w) saga)
        = Inr \<lparr>retry_attempts = PyInt 1, operations = [], saga_results = []\<rparr>
   \<and> (isinstance_int v \<or> isinstance_float v \<longrightarrow>
        (init v :: 'v SagaException + ('a, 'v, 'w) saga)
          = Inr \<lparr>retry_attempts = (if truthy v then v else PyInt 1),
                 operations = [], saga_results = []\<rparr>)"
  by (simp add: init_def)

theorem init_cases_witness:
  "isl (init (PyStr ''two'') :: nat SagaException + (nat, nat, nat) saga)
   \<and> (init PyNone :: nat SagaException + (nat, nat, nat) saga)
        = Inr \<lparr>retry_attempts = PyInt 1, operations = [], saga_results = []\<rparr>
   \<and> (init (PyInt 2) :: nat SagaException + (nat, nat, nat) saga)
        = Inr \<lparr>retry_attempts = PyInt 2, operations = [], saga_results = []\<rparr>
   \<and> (init (PyInt 0) :: nat SagaException + (nat, nat, nat) saga)
        = Inr \<lparr>retry_attempts = PyInt 1, operations = [], saga_results = []\<rparr>"
  using init_cases [where 'a = nat and 'v = nat and 'w = nat and v = "PyStr ''two''"]
    init_cases [where 'a = nat and 'v = nat and 'w = nat and v = "PyInt 2"]
    init_cases [where 'a = nat and 'v = nat and 'w = nat and v = "PyInt 0"]
  by simp

section \<open>Declaring operations\<close>

lemma check_operation_function_first:
  "function_first arg \<Longrightarrow> \<exists>p. check_operation arg = Inr p \<and> binds arg p"
  by (induction arg rule: function_first.induct) (simp_all add: check_operation_def binds_def)

lemma check_operation_no_function:
  "no_function arg \<Longrightarrow> check_operation arg = Inl add_function_error"
  by (induction arg rule: no_function.induct) (simp_all add: check_operation_def)

lemma check_all_accepts:
  "\<forall>arg\<in>set xs. function_first arg \<Longrightarrow> \<exists>t. check_all xs = Inr t \<and> list_all2 binds xs t"
proof (induction xs)
  case Nil
  then show ?case by simp
next
  case (Cons x xs)
  then obtain p t where "check_operation x = Inr p" "binds x p" "check_all xs = Inr t"
    "list_all2 binds xs t"
    using check_operation_function_first [of x] by fastforce
  then show ?case by simp
qed

lemma check_all_no_function:
  "\<forall>arg\<in>set pre. function_first arg \<Longrightarrow> no_function x \<Longrightarrow>
   check_all (pre @ x # post) = Inl add_function_error"
proof (induction pre)
  case Nil
  then show ?case by (simp add: check_operation_no_function)
next
  case (Cons y pre)
  then obtain p where "check_operation y = Inr p"
    using check_operation_function_first [of y] by auto
  with Cons show ?case by simp
qed

text \<open>
  Claim C7 says that \<open>operation\<close> raises exactly when it is given no value, more than two, or a
  first value that is not callable, and that it accepts any bare callable. It raises for a
  callable that is not a plain function, and for a second value (the compensation) that is
  not a function although the first is one.
\<close>

theorem operation_counterexample:
  "operation [OtherCallable] empty_saga = (Some add_function_error, empty_saga)
   \<and> operation [Function (always ''debit'' 1), Plain 5] empty_saga = (Some add_function_error, empty_saga)
   \<and> callable (OtherCallable :: (nat, nat, nat) pyobject)
   \<and> callable (Function (always ''debit'' 1))"
  by (simp add: operation_def check_operation_def)

text \<open>
  Claim C7, as the code has it.
  \<^item> \<open>operation\<close> raises \<open>SagaException\<close> when it is given no value or more than two.
  \<^item> Given one or two values that are each a plain function, or a list or tuple whose first
    element is a plain function, it appends one operation that holds, for each value in
    order, the function with the remaining elements bound as its arguments.
  \<^item> Given one or two values, it raises \<open>SagaException\<close> when the first of them that is not of
    that form has no \<open>__iter__\<close> (a callable of another type, a value that is not callable),
    or is a non-empty list, tuple or string whose first element is not a plain function;
    the value may be the action or the compensation.
  \<^item> Whenever it raises, whatever the exception, the saga is left as it was.
\<close>

theorem operation_cases:
  "(arg_list = [] \<or> length arg_list > 2 \<longrightarrow>
      (\<exists>msg. operation arg_list sg = (Some (Saga (SagaException (Message msg) None None None)), sg)))
   \<and> (arg_list \<noteq> [] \<and> length arg_list \<le> 2 \<and> (\<forall>arg\<in>set arg_list. function_first arg) \<longrightarrow>
        (\<exists>t. operation arg_list sg = (None, sg\<lparr>operations := operations sg @ [t]\<rparr>)
              \<and> list_all2 binds arg_list t))
   \<and> (arg_list \<noteq> [] \<and> length arg_list \<le> 2 \<and> arg_list = pre @ x # post
        \<and> (\<forall>arg\<in>set pre. function_first arg) \<and> no_function x \<longrightarrow>
        operation arg_list sg = (Some add_function_error, sg))
   \<and> (fst (operation arg_list sg) \<noteq> None \<longrightarrow> snd (operation arg_list sg) = sg)"
proof (intro conjI impI)
  assume "arg_list = [] \<or> length arg_list > 2"
  then show "\<exists>msg. operation arg_list sg = (Some (Saga (SagaException (Message msg) None None None)), sg)"
    by (auto simp: operation_def)
next
  assume a: "arg_list \<noteq> [] \<and> length arg_list \<le> 2 \<and> (\<forall>arg\<in>set arg_list. function_first arg)"
  then obtain t where "check_all arg_list = Inr t" "list_all2 binds arg_list t"
    using check_all_accepts by blast
  with a have "operation arg_list sg = (None, sg\<lparr>operations := operations sg @ [t]\<rparr>)
              \<and> list_all2 binds arg_list t"
    by (simp add: operation_def)
  then show "\<exists>t. operation arg_list sg = (None, sg\<lparr>operations := operations sg @ [t]\<rparr>)
              \<and> list_all2 binds arg_list t"
    by blast
next
  assume a: "arg_list \<noteq> [] \<and> length arg_list \<le> 2 \<and> arg_list = pre @ x # post
        \<and> (\<forall>arg\<in>set pre. function_first arg) \<and> no_function x"
  then have c: "check_all arg_list = Inl add_function_error"
    using check_all_no_function [of pre x post] by simp
  from a have "arg_list \<noteq> []" and "\<not> length arg_list > 2"
    by auto
  with c show "operation arg_list sg = (Some add_function_error, sg)"
    by (simp add: operation_def)
next
  assume "fst (operation arg_list sg) \<noteq> None"
  then show "snd (operation arg_list sg) = sg"
    by (auto simp: operation_def split: if_splits sum.splits)
qed

theorem operation_cases_witness:
  "operation [] empty_saga
     = (Some (Saga (SagaException (Message ''Operation can not be empty'') None None None)), empty_saga)
   \<and> operation [Function (always ''debit'' 1), Sequence (Function (always ''credit'' 2)) [7, 8]] empty_saga
     = (None, empty_saga\<lparr>operations :=
          [[\<lparr>func = always ''debit'' 1, args = []\<rparr>, \<lparr>func = always ''credit'' 2, args = [7, 8]\<rparr>]]\<rparr>)
   \<and> operation [Function (always ''debit'' 1), Plain 5] empty_saga = (Some add_function_error, empty_saga)
   \<and> operation [Function (always ''debit'' 1), EmptySequence TupleType] empty_saga
     = (Some (Other (PyException ''IndexError'' ''tuple index out of range'')), empty_saga)
   \<and> operation [OtherIterable (Inl (PyException ''KeyError'' ''0'')) (Inl (PyException ''TypeError'' []))]
        empty_saga
     = (Some (Other (PyException ''KeyError'' ''0'')), empty_saga)"
  using operation_cases [of "[]" empty_saga]
    operation_cases [of "[Function (always ''debit'' 1), Sequence (Function (always ''credit'' 2)) [7, 8]]" empty_saga]
    operation_cases [of "[Function (always ''debit'' 1), Plain 5]" empty_saga "[Function (always ''debit'' 1)]"
       "Plain 5" "[]"]
    operation_cases [of "[Function (always ''debit'' 1), EmptySequence TupleType]" empty_saga]
    operation_cases [of "[OtherIterable (Inl (PyException ''KeyError'' ''0'')) (Inl (PyException ''TypeError'' []))]"
       empty_saga]
  by (simp add: operation_def check_operation_def empty_saga_def binds_def)

section \<open>The retry executor\<close>

lemma invoke_self [simp]: "self (snd (invoke i pos p m)) = self m"
  by (simp add: invoke_def split: prod.splits)

lemma invoke_calls:
  "calls (snd (invoke i pos p m)) = calls m @ [Call i pos (is_returned (fst (invoke i pos p m)))]"
  by (simp add: invoke_def split: prod.splits)

lemma attempt_0: "attempt i f m 0 = fst (invoke i 0 f m)"
  by (simp add: attempt_def)

lemma attempt_Suc: "attempt i f m (Suc k) = attempt i f (failed_attempt i f m) k"
  by (simp add: attempt_def funpow_swap1)

lemma retry_loop_success:
  "\<forall>k<n. \<not> is_returned (attempt i f m k) \<Longrightarrow> attempt i f m n = Returned v \<Longrightarrow>
   retry_loop (Suc n) err i f m
     = (Inr v, append_result v (failed_attempt i f ((failed_attempt i f ^^ n) m)))"
proof (induction n arbitrary: m err)
  case 0
  then show ?case
    by (cases "invoke i 0 f m") (simp add: attempt_0 failed_attempt_def)
next
  case (Suc n)
  from Suc.prems(1) have "\<not> is_returned (attempt i f m 0)" by blast
  then obtain e m1 where inv: "invoke i 0 f m = (Raised e, m1)"
    by (cases "invoke i 0 f m"; cases "fst (invoke i 0 f m)") (auto simp: attempt_0)
  then have m1: "m1 = failed_attempt i f m" by (simp add: failed_attempt_def)
  have a: "\<forall>k<n. \<not> is_returned (attempt i f m1 k)"
    using Suc.prems(1) by (auto simp: m1 attempt_Suc [symmetric])
  have b: "attempt i f m1 n = Returned v"
    using Suc.prems(2) by (simp add: m1 attempt_Suc)
  have "retry_loop (Suc (Suc n)) err i f m = retry_loop (Suc n) (Some e) i f m1"
    using inv by simp
  also have "\<dots> = (Inr v, append_result v (failed_attempt i f ((failed_attempt i f ^^ n) m1)))"
    using Suc.IH [OF a b] .
  finally show ?case by (simp add: m1 funpow_swap1)
qed

lemma retry_loop_failure:
  "\<forall>k<n. attempt i f m k = Raised (e k) \<Longrightarrow>
   retry_loop n err i f m
     = (Inl (if n = 0 then raise_error err else e (n - 1)), (failed_attempt i f ^^ n) m)"
proof (induction n arbitrary: m err e)
  case 0
  then show ?case by simp
next
  case (Suc n)
  from Suc.prems have "attempt i f m 0 = Raised (e 0)" by blast
  then obtain m1 where inv: "invoke i 0 f m = (Raised (e 0), m1)"
    by (cases "invoke i 0 f m") (auto simp: attempt_0)
  then have m1: "m1 = failed_attempt i f m" by (simp add: failed_attempt_def)
  have a: "\<forall>k<n. attempt i f m1 k = Raised (e (Suc k))"
    using Suc.prems by (auto simp: m1 attempt_Suc [symmetric])
  have "retry_loop (Suc n) err i f m = retry_loop n (Some (e 0)) i f m1"
    using inv by simp
  also have "\<dots> = (Inl (if n = 0 then raise_error (Some (e 0)) else e (Suc (n - 1))),
                     (failed_attempt i f ^^ n) m1)"
    using Suc.IH [OF a] .
  finally show ?case by (cases n) (simp_all add: m1 funpow_swap1 raise_error_def)
qed

lemma failed_attempts_self: "self ((failed_attempt i f ^^ n) m) = self m"
  by (induction n) (simp_all add: failed_attempt_def)

lemma failed_attempt_calls:
  "calls (failed_attempt i f m) = calls m @ [Call i 0 (is_returned (fst (invoke i 0 f m)))]"
  by (simp add: failed_attempt_def invoke_calls)

lemma failed_attempts_calls:
  "\<forall>k<n. \<not> is_returned (attempt i f m k) \<Longrightarrow>
   calls ((failed_attempt i f ^^ n) m) = calls m @ replicate n (Call i 0 False)"
proof (induction n)
  case 0
  then show ?case by simp
next
  case (Suc n)
  then have "\<not> is_returned (fst (invoke i 0 f ((failed_attempt i f ^^ n) m)))"
    by (simp add: attempt_def)
  moreover have "calls ((failed_attempt i f ^^ n) m) = calls m @ replicate n (Call i 0 False)"
    using Suc by simp
  ultimately show ?case
    by (simp add: failed_attempt_calls replicate_append_same)
qed



section \<open>The orchestrator\<close>

lemma append_result_simps [simp]:
  "calls (append_result v m) = calls m"
  "world (append_result v m) = world m"
  "operations (self (append_result v m)) = operations (self m)"
  "retry_attempts (self (append_result v m)) = retry_attempts (self m)"
  "saga_results (self (append_result v m)) = saga_results (self m) @ [v]"
  by (simp_all add: append_result_def)

lemma retry_loop_operations:
  "operations (self (snd (retry_loop n err i f m))) = operations (self m)
   \<and> retry_attempts (self (snd (retry_loop n err i f m))) = retry_attempts (self m)"
proof (induction n arbitrary: err m)
  case 0
  then show ?case by simp
next
  case (Suc n)
  obtain r m1 where inv: "invoke i 0 f m = (r, m1)" by (cases "invoke i 0 f m")
  then have m1: "self m1 = self m" using invoke_self [of i 0 f m] by simp
  show ?case
  proof (cases r)
    case (Returned v)
    with inv m1 show ?thesis by simp
  next
    case (Raised e)
    with inv m1 Suc.IH [of "Some e" m1] show ?thesis by simp
  qed
qed

lemma retry_operation_operations [simp]:
  "operations (self (snd (retry_operation i f m))) = operations (self m)"
  "retry_attempts (self (snd (retry_operation i f m))) = retry_attempts (self m)"
  using retry_loop_operations [of _ None i f m]
  by (simp_all add: retry_operation_def split: sum.splits)

lemma retry_loop_calls:
  "\<exists>acts. calls (snd (retry_loop n err i f m)) = calls m @ acts
          \<and> (\<forall>c\<in>set acts. slot c = (i, 0))"
proof (induction n arbitrary: err m)
  case 0
  then show ?case by simp
next
  case (Suc n)
  obtain r m1 where inv: "invoke i 0 f m = (r, m1)" by (cases "invoke i 0 f m")
  then have m1: "calls m1 = calls m @ [Call i 0 (is_returned r)]"
    using invoke_calls [of i 0 f m] by simp
  show ?case
  proof (cases r)
    case (Returned v)
    with inv m1 show ?thesis by (simp add: slot_def)
  next
    case (Raised e)
    obtain acts where "calls (snd (retry_loop n (Some e) i f m1)) = calls m1 @ acts"
      "\<forall>c\<in>set acts. slot c = (i, 0)"
      using Suc.IH [of "Some e" m1] by blast
    with inv m1 Raised show ?thesis by (simp add: slot_def)
  qed
qed

lemma retry_operation_calls:
  "\<exists>acts. calls (snd (retry_operation i f m)) = calls m @ acts
          \<and> (\<forall>c\<in>set acts. slot c = (i, 0))"
  using retry_loop_calls [of _ None i f m]
  by (simp add: retry_operation_def split: sum.splits)

lemma compensation_loop_self [simp]:
  "self (snd (orchestrator_compensation_loop j succ excs m)) = self m"
proof (induction j arbitrary: succ excs m)
  case 0
  then show ?case by simp
next
  case (Suc j)
  let ?t = "operations (self m) ! j"
  obtain r m1 where inv: "invoke j (length ?t - 1) (last ?t) m = (r, m1)"
    by (cases "invoke j (length ?t - 1) (last ?t) m")
  then have "self m1 = self m" using invoke_self [of j "length ?t - 1" "last ?t" m] by simp
  with inv Suc.IH show ?case by (cases r) (simp_all add: Let_def)
qed

lemma compensation_loop_calls:
  "\<forall>k<j. operations (self m) ! k \<noteq> [] \<Longrightarrow>
   \<exists>sweep. calls (snd (orchestrator_compensation_loop j succ excs m)) = calls m @ sweep
     \<and> map slot sweep = map (\<lambda>k. (k, length (operations (self m) ! k) - 1)) (rev [0..<j])"
proof (induction j arbitrary: succ excs m)
  case 0
  then show ?case by simp
next
  case (Suc j)
  let ?t = "operations (self m) ! j"
  have t: "?t \<noteq> []" using Suc.prems by simp
  obtain r m1 where inv: "invoke j (length ?t - 1) (last ?t) m = (r, m1)"
    by (cases "invoke j (length ?t - 1) (last ?t) m")
  then have s: "self m1 = self m" and c: "calls m1 = calls m @ [Call j (length ?t - 1) (is_returned r)]"
    using invoke_self [of j "length ?t - 1" "last ?t" m] invoke_calls [of j "length ?t - 1" "last ?t" m]
    by simp_all
  have p: "\<forall>k<j. operations (self m1) ! k \<noteq> []" using Suc.prems s by simp
  obtain succ' excs' where step:
    "orchestrator_compensation_loop (Suc j) succ excs m
       = orchestrator_compensation_loop j succ' excs' m1"
    using inv t by (cases r) auto
  obtain sweep where sw:
    "calls (snd (orchestrator_compensation_loop j succ' excs' m1)) = calls m1 @ sweep"
    "map slot sweep = map (\<lambda>k. (k, length (operations (self m) ! k) - 1)) (rev [0..<j])"
    using Suc.IH [OF p, of succ' excs'] s by auto
  let ?c = "Call j (length ?t - 1) (is_returned r)"
  have "calls (snd (orchestrator_compensation_loop (Suc j) succ excs m)) = calls m @ (?c # sweep)"
    using step sw(1) c by simp
  moreover have "map slot (?c # sweep)
      = map (\<lambda>k. (k, length (operations (self m) ! k) - 1)) (rev [0..<Suc j])"
    using sw(2) by (simp add: slot_def)
  ultimately show ?case by blast
qed

lemma orchestrator_loop_append:
  "orchestrator_loop (xs @ ys) response m =
     (case orchestrator_loop xs response m of
        (Inr r, m1) \<Rightarrow> orchestrator_loop ys r m1
      | (Inl exc, m1) \<Rightarrow> (Inl exc, m1))"
  by (induction xs arbitrary: response m) (auto split: prod.splits sum.splits)

lemma orchestrator_loop_success:
  "orchestrator_loop xs response m = (Inr r, m1) \<Longrightarrow>
   operations (self m1) = operations (self m)
   \<and> retry_attempts (self m1) = retry_attempts (self m)
   \<and> (\<exists>acts. calls m1 = calls m @ acts
         \<and> (\<forall>c\<in>set acts. call_position c = 0 \<and> call_index c \<in> set xs))"
proof (induction xs arbitrary: response m)
  case Nil
  then show ?case by simp
next
  case (Cons i xs)
  let ?f = "operations (self m) ! i ! 0"
  obtain res m2 where ro: "retry_operation i ?f m = (res, m2)"
    by (cases "retry_operation i ?f m")
  show ?case
  proof (cases res)
    case (Inl e)
    with ro Cons.prems show ?thesis by (simp split: prod.splits)
  next
    case (Inr v)
    with ro Cons.prems have rest: "orchestrator_loop xs (response @ [v]) m2 = (Inr r, m1)"
      by simp
    have ops: "operations (self m2) = operations (self m)"
      "retry_attempts (self m2) = retry_attempts (self m)"
      using retry_operation_operations [of i ?f m] ro by simp_all
    obtain a1 where a1: "calls m2 = calls m @ a1" "\<forall>c\<in>set a1. slot c = (i, 0)"
      using retry_operation_calls [of i ?f m] ro by auto
    obtain a2 where a2: "calls m1 = calls m2 @ a2"
      "\<forall>c\<in>set a2. call_position c = 0 \<and> call_index c \<in> set xs"
      using Cons.IH [OF rest] by blast
    have "calls m1 = calls m @ (a1 @ a2)" using a1 a2 by simp
    moreover have "\<forall>c\<in>set (a1 @ a2). call_position c = 0 \<and> call_index c \<in> set (i # xs)"
      using a1(2) a2(2) by (auto simp: slot_def)
    ultimately show ?thesis using Cons.IH [OF rest] ops by metis
  qed
qed

lemmas run_defs = start_def retry_operation_def invoke_def call_partial_def bare_def always_def
  never_def from_call_def append_result_def execute_orchestrator_compensation_def or_None_def
  SagaException_def orchestrator_execute_def raise_error_def





text \<open>
  Claim C1 says that the sweep calls nothing for an operation declared without a
  compensation. The guard of the sweep is \<open>if len(self.__operations[compensation_index])\<close>,
  which is true for every tuple, and \<open>[-1]\<close> of a tuple of one is the action: with \<open>debit\<close>
  declared alone and \<open>ship\<close> failing, \<open>debit\<close> is called a second time during the sweep and its
  result is reported as a compensation result.
\<close>

theorem no_compensation_action_called_again:
  "orchestrator_execute (start (PyInt 1) no_undo)
     = (Inl (SagaException (Caught (PyException ''ValueError'' ''ship failed'')) (Some ''ship'')
               (Some [1]) None),
        \<lparr>self = \<lparr>retry_attempts = PyInt 1, operations = no_undo, saga_results = [1]\<rparr>,
         world = 3, calls = [Call 0 0 True, Call 1 0 False, Call 0 0 True]\<rparr>)"
  by (simp add: run_defs no_undo_def numeral_2_eq_2 numeral_3_eq_3 upt_rec)

section \<open>The thread pool and the thread results\<close>

lemma set_run_order: "set (run_order sched n) = {0..<n}"
  by (auto simp: run_order_def)

lemma distinct_run_order: "distinct (run_order sched n)"
  by (auto simp: run_order_def)

lemma mset_run_order: "mset (run_order sched n) = mset [0..<n]"
proof -
  have "set (run_order sched n) = set [0..<n]" by (simp add: set_run_order)
  then show ?thesis
    using distinct_run_order [of sched n] distinct_upt [of 0 n] set_eq_iff_mset_eq_distinct
    by blast
qed

lemma run_tasks_keys: "map fst (fst (run_tasks order task m)) = order"
proof (induction order arbitrary: m)
  case Nil
  then show ?case by simp
next
  case (Cons i order)
  obtain r m1 where t: "task i m = (r, m1)" by (cases "task i m")
  obtain rs m2 where rt: "run_tasks order task m1 = (rs, m2)" by (cases "run_tasks order task m1")
  have "map fst rs = order" using Cons.IH [of m1] rt by simp
  with t rt show ?case by simp
qed

lemma run_tasks_invariant:
  assumes step: "\<And>i s. I s \<Longrightarrow> I (snd (task i s))" and init: "I m"
  shows "I (snd (run_tasks order task m))
         \<and> (\<forall>(i, r)\<in>set (fst (run_tasks order task m)). \<exists>s. I s \<and> r = fst (task i s))"
  using init
proof (induction order arbitrary: m)
  case Nil
  then show ?case by simp
next
  case (Cons i order)
  obtain r m1 where t: "task i m = (r, m1)" by (cases "task i m")
  then have m1: "I m1" using step [OF Cons.prems, of i] by simp
  obtain rs m2 where rt: "run_tasks order task m1 = (rs, m2)" by (cases "run_tasks order task m1")
  have ih: "I m2 \<and> (\<forall>(j, r)\<in>set rs. \<exists>s. I s \<and> r = fst (task j s))"
    using Cons.IH [OF m1] rt by simp
  have r: "r = fst (task i m)" using t by simp
  have eq: "run_tasks (i # order) task m = ((i, r) # rs, m2)" using t rt by simp
  have "\<exists>s. I s \<and> r = fst (task i s)" using Cons.prems r by blast
  with ih show ?case unfolding eq by simp
qed

lemma result_finished:
  assumes "i \<in> fst ` set finished"
  shows "\<exists>r. (i, r) \<in> set finished \<and> result finished i = r"
proof -
  from assms obtain r where "map_of finished i = Some r"
    by (metis map_of_eq_None_iff not_Some_eq)
  then show ?thesis by (auto simp: result_def dest: map_of_SomeD)
qed

lemma prepare_loop_eq:
  "prepare_loop threads success success_index errors =
     (success @ map (projr \<circ> function_future) (filter (\<lambda>t. \<not> isl (function_future t)) threads),
      success_index @ map function_index (filter (\<lambda>t. \<not> isl (function_future t)) threads),
      errors @ map (\<lambda>t. \<lparr>failed_function_index = function_index t,
                          failed_function_name = function_name t,
                          error = projl (function_future t)\<rparr>)
                 (filter (\<lambda>t. isl (function_future t)) threads))"
proof (induction threads arbitrary: success success_index errors)
  case Nil
  then show ?case by simp
next
  case (Cons t threads)
  then show ?case by (cases "function_future t") simp_all
qed

lemma prepare_thread_result_eq:
  "prepare_thread_result threads =
     (if \<exists>t\<in>set threads. isl (function_future t)
      then Inl \<lparr>success_results =
                  map function_index (filter (\<lambda>t. \<not> isl (function_future t)) threads),
                failed_results =
                  map (\<lambda>t. \<lparr>failed_function_index = function_index t,
                             failed_function_name = function_name t,
                             error = projl (function_future t)\<rparr>)
                    (filter (\<lambda>t. isl (function_future t)) threads)\<rparr>
      else Inr (map (projr \<circ> function_future) threads))"
proof (cases "\<exists>t\<in>set threads. isl (function_future t)")
  case True
  then have "filter (\<lambda>t. isl (function_future t)) threads \<noteq> []"
    by (simp add: filter_empty_conv)
  with True show ?thesis by (simp add: prepare_thread_result_def prepare_loop_eq)
next
  case False
  then have "filter (\<lambda>t. isl (function_future t)) threads = []"
    "filter (\<lambda>t. \<not> isl (function_future t)) threads = threads"
    by (simp_all add: filter_empty_conv filter_id_conv)
  with False show ?thesis by (simp add: prepare_thread_result_def prepare_loop_eq)
qed

section \<open>Runs in which every action succeeds\<close>

lemma retry_operation_returns:
  assumes "range_length (retry_attempts (self m)) = Inr (Suc n)"
    and "call_partial f (saga_results (self m)) (world m) = (Returned v, w)"
  shows "retry_operation i f m
           = (Inr v, append_result v (m\<lparr>world := w, calls := calls m @ [Call i 0 True]\<rparr>))"
  using assms by (simp add: retry_operation_def invoke_def)

lemma orchestrator_loop_all_return:
  assumes "range_length ra = Inr (Suc n)"
    and "\<And>i results w. i < length ops \<Longrightarrow>
           \<exists>v w'. call_partial (ops ! i ! 0) results w = (Returned v, w') \<and> P i v"
  shows "operations (self m) = ops \<Longrightarrow> retry_attempts (self m) = ra \<Longrightarrow>
         \<forall>i\<in>set xs. i < length ops \<Longrightarrow>
         \<exists>outs m'. orchestrator_loop xs response m = (Inr (response @ outs), m')
                     \<and> list_all2 P xs outs"
proof (induction xs arbitrary: response m)
  case Nil
  then show ?case by simp
next
  case (Cons i xs)
  then have i: "i < length ops" by simp
  obtain v w where c: "call_partial (ops ! i ! 0) (saga_results (self m)) (world m) = (Returned v, w)"
    and p: "P i v"
    using assms(2) [OF i] by blast
  let ?m1 = "append_result v (m\<lparr>world := w, calls := calls m @ [Call i 0 True]\<rparr>)"
  have r: "retry_operation i (ops ! i ! 0) m = (Inr v, ?m1)"
    using retry_operation_returns [of m n "ops ! i ! 0" v w i] assms(1) Cons.prems c by simp
  have "operations (self ?m1) = ops" "retry_attempts (self ?m1) = ra" "\<forall>j\<in>set xs. j < length ops"
    using Cons.prems by simp_all
  then obtain outs m' where
    ih: "orchestrator_loop xs (response @ [v]) ?m1 = (Inr ((response @ [v]) @ outs), m')"
      "list_all2 P xs outs"
    using Cons.IH by blast
  have "orchestrator_loop (i # xs) response m = (Inr (response @ (v # outs)), m')"
    using r ih(1) Cons.prems by simp
  moreover have "list_all2 P (i # xs) (v # outs)" using p ih(2) by simp
  ultimately show ?case by blast
qed

lemma submit_actions_all_return:
  assumes ra: "range_length (retry_attempts (self m)) = Inr (Suc n)"
    and ok: "\<And>i results w. i < length (operations (self m)) \<Longrightarrow>
           \<exists>v w'. call_partial (operations (self m) ! i ! 0) results w = (Returned v, w') \<and> P i v"
    and i: "i < length (operations (self m))"
  shows "\<exists>v. function_future (fst (submit_actions sched m) ! i) = Inr v \<and> P i v"
proof -
  let ?ops = "operations (self m)"
  let ?task = "\<lambda>i. retry_operation i (?ops ! i ! 0)"
  let ?I = "\<lambda>s. operations (self s) = ?ops \<and> retry_attempts (self s) = retry_attempts (self m)"
  let ?order = "run_order sched (length ?ops)"
  obtain finished m1 where rt: "run_tasks ?order ?task m = (finished, m1)"
    by (cases "run_tasks ?order ?task m")
  have keys: "map fst finished = ?order" using run_tasks_keys [of ?order ?task m] rt by simp
  have inv: "\<forall>(j, r)\<in>set finished. \<exists>s. ?I s \<and> r = fst (?task j s)"
    using run_tasks_invariant [of ?I ?task m ?order] rt by simp
  have "i \<in> set ?order" using i by (simp add: set_run_order)
  then have "i \<in> fst ` set finished" using keys by (metis set_map)
  then obtain r where r: "(i, r) \<in> set finished" "result finished i = r"
    using result_finished by blast
  then obtain s where s: "?I s" "r = fst (?task i s)" using inv by blast
  obtain v w where c: "call_partial (?ops ! i ! 0) (saga_results (self s)) (world s) = (Returned v, w)"
    and p: "P i v"
    using ok [OF i] by blast
  have "range_length (retry_attempts (self s)) = Inr (Suc n)" using s(1) ra by simp
  then have "fst (?task i s) = Inr v"
    using retry_operation_returns [of s n "?ops ! i ! 0" v w i] c by simp
  then have "result finished i = Inr v" using r s by simp
  then show ?thesis using rt i p by (simp add: submit_actions_def Let_def)
qed

lemma submit_actions_length:
  "length (fst (submit_actions sched m)) = length (operations (self m))"
  by (simp add: submit_actions_def Let_def split: prod.splits)

text \<open>
  Claim C4. For a saga with \<open>N \<ge> 1\<close> operations and at least one attempt configured, in
  which every action returns whenever it is called, both \<open>orchestrator_execute\<close> and
  \<open>choreography_execute\<close> (whatever the order in which the pool runs the tasks) return exactly
  \<open>N\<close> outputs, and the output at position \<open>i\<close> is a value returned by the action of operation
  \<open>i\<close>: if the action of operation \<open>i\<close> only returns values with the property \<open>P i\<close>, the output
  at position \<open>i\<close> has that property.
\<close>

theorem all_succeed_outputs_in_declaration_order:
  assumes ra: "range_length (retry_attempts (self m)) = Inr (Suc n)"
    and ne: "operations (self m) \<noteq> []"
    and ok: "\<And>i results w. i < length (operations (self m)) \<Longrightarrow>
           \<exists>v w'. call_partial (operations (self m) ! i ! 0) results w = (Returned v, w') \<and> P i v"
  shows "(\<exists>outs. fst (orchestrator_execute m) = Inr outs
            \<and> length outs = length (operations (self m))
            \<and> (\<forall>i<length (operations (self m)). P i (outs ! i)))
         \<and> (\<exists>outs. fst (choreography_execute sched sched_comp m) = Inr outs
            \<and> length outs = length (operations (self m))
            \<and> (\<forall>i<length (operations (self m)). P i (outs ! i)))"
proof
  let ?ops = "operations (self m)"
  obtain outs m' where o: "orchestrator_loop [0..<length ?ops] [] m = (Inr ([] @ outs), m')"
    "list_all2 P [0..<length ?ops] outs"
    using orchestrator_loop_all_return
      [where ra = "retry_attempts (self m)" and n = n and ops = ?ops and P = P and m = m
         and xs = "[0..<length ?ops]" and response = "[]"]
      ra ok by auto
  have "fst (orchestrator_execute m) = Inr outs"
    using o(1) ne by (simp add: orchestrator_execute_def)
  moreover have "length outs = length ?ops" using o(2) by (auto dest: list_all2_lengthD)
  moreover have "\<forall>i<length ?ops. P i (outs ! i)"
    using o(2) by (auto simp: list_all2_conv_all_nth)
  ultimately show "\<exists>outs. fst (orchestrator_execute m) = Inr outs
            \<and> length outs = length ?ops \<and> (\<forall>i<length ?ops. P i (outs ! i))"
    by blast
next
  let ?ops = "operations (self m)"
  obtain threads m1 where sa: "submit_actions sched m = (threads, m1)"
    by (cases "submit_actions sched m")
  have len: "length threads = length ?ops" using submit_actions_length [of sched m] sa by simp
  have each: "\<forall>i<length ?ops. \<exists>v. function_future (threads ! i) = Inr v \<and> P i v"
  proof (intro allI impI)
    fix i assume i: "i < length ?ops"
    show "\<exists>v. function_future (threads ! i) = Inr v \<and> P i v"
      using submit_actions_all_return [where P = P and sched = sched, OF ra ok i] sa by simp
  qed
  have none: "\<not> (\<exists>t\<in>set threads. isl (function_future t))"
  proof
    assume "\<exists>t\<in>set threads. isl (function_future t)"
    then obtain i where "i < length threads" "isl (function_future (threads ! i))"
      by (auto simp: in_set_conv_nth)
    with each len show False by auto
  qed
  let ?outs = "map (projr \<circ> function_future) threads"
  have "fst (choreography_execute sched sched_comp m) = Inr ?outs"
    using sa ne none by (simp add: choreography_execute_def prepare_thread_result_eq)
  moreover have "length ?outs = length ?ops" using len by simp
  moreover have "\<forall>i<length ?ops. P i (?outs ! i)"
  proof (intro allI impI)
    fix i assume i: "i < length ?ops"
    then obtain v where "function_future (threads ! i) = Inr v" "P i v" using each by blast
    then show "P i (?outs ! i)" using i len by simp
  qed
  ultimately show "\<exists>outs. fst (choreography_execute sched sched_comp m) = Inr outs
            \<and> length outs = length ?ops \<and> (\<forall>i<length ?ops. P i (outs ! i))"
    by blast
qed

theorem all_succeed_outputs_in_declaration_order_witness:
  "fst (orchestrator_execute (start (PyInt 1) three_actions)) = Inr [10, 20, 30]
   \<and> fst (choreography_execute [2, 0, 1] [] (start (PyInt 1) three_actions)) = Inr [10, 20, 30]"
proof -
  let ?m = "start (PyInt 1) three_actions"
  have ra: "range_length (retry_attempts (self ?m)) = Inr (Suc 0)" by (simp add: start_def)
  have ne: "operations (self ?m) \<noteq> []" by (simp add: start_def three_actions_def)
  have len: "length (operations (self ?m)) = 3" by (simp add: start_def three_actions_def)
  have ok: "\<exists>v w'. call_partial (operations (self ?m) ! i ! 0) results w = (Returned v, w')
              \<and> v = 10 * Suc i"
    if "i < length (operations (self ?m))" for i results w
    using that
    by (auto simp: start_def three_actions_def call_partial_def bare_def always_def
        numeral_3_eq_3 less_Suc_eq)
  have exact: "outs = [10, 20, 30]"
    if "length outs = length (operations (self ?m))"
      "\<forall>i<length (operations (self ?m)). outs ! i = 10 * Suc i" for outs :: "nat list"
  proof (rule nth_equalityI)
    show "length outs = length [10, 20, 30 :: nat]" using that(1) len by simp
    show "outs ! i = [10, 20, 30] ! i" if "i < length outs" for i
      using that \<open>length outs = length (operations (self ?m))\<close>
        \<open>\<forall>i<length (operations (self ?m)). outs ! i = 10 * Suc i\<close> len
      by (auto simp: numeral_3_eq_3 less_Suc_eq)
  qed
  from all_succeed_outputs_in_declaration_order
    [where P = "\<lambda>i v. v = 10 * Suc i" and sched = "[2, 0, 1]" and sched_comp = "[]", OF ra ne ok]
  show ?thesis using exact by auto
qed

section \<open>Failed choreography runs\<close>

lemma first_of_filter:
  "filter Q xs \<noteq> [] \<Longrightarrow>
   \<exists>k<length xs. hd (filter Q xs) = xs ! k \<and> Q (xs ! k) \<and> (\<forall>j<k. \<not> Q (xs ! j))"
proof (induction xs)
  case Nil
  then show ?case by simp
next
  case (Cons x xs)
  show ?case
  proof (cases "Q x")
    case True
    then have "hd (filter Q (x # xs)) = (x # xs) ! 0 \<and> Q ((x # xs) ! 0)
                 \<and> (\<forall>j<0. \<not> Q ((x # xs) ! j))"
      by simp
    then show ?thesis by blast
  next
    case False
    with Cons obtain k where k: "k < length xs" "hd (filter Q xs) = xs ! k" "Q (xs ! k)"
      "\<forall>j<k. \<not> Q (xs ! j)"
      by auto
    have "\<forall>j<Suc k. \<not> Q ((x # xs) ! j)"
      using False k(4) by (auto simp: less_Suc_eq_0_disj)
    with False k show ?thesis by (intro exI [of _ "Suc k"]) simp
  qed
qed

lemma submit_actions_nth:
  "i < length (operations (self m)) \<Longrightarrow>
   function_index (fst (submit_actions sched m) ! i) = i
   \<and> function_name (fst (submit_actions sched m) ! i) = fname (func (operations (self m) ! i ! 0))"
  by (simp add: submit_actions_def Let_def split: prod.splits)

lemma submit_actions_operations:
  "operations (self (snd (submit_actions sched m))) = operations (self m)"
proof -
  let ?ops = "operations (self m)"
  let ?task = "\<lambda>i. retry_operation i (?ops ! i ! 0)"
  have "operations (self (snd (run_tasks order ?task m))) = ?ops" for order
    using run_tasks_invariant [of "\<lambda>s. operations (self s) = ?ops" ?task m order] by simp
  from this [of "run_order sched (length ?ops)"] show ?thesis
    by (cases "run_tasks (run_order sched (length ?ops)) ?task m")
      (simp add: submit_actions_def Let_def)
qed

lemma indices_of_filter:
  "\<forall>i<length xs. f (xs ! i) = i \<Longrightarrow>
   map f (filter R xs) = filter (\<lambda>i. R (xs ! i)) [0..<length xs]"
proof (induction xs rule: rev_induct)
  case Nil
  then show ?case by simp
next
  case (snoc x xs)
  have a: "\<forall>i<length xs. f (xs ! i) = i"
  proof (intro allI impI)
    fix i assume "i < length xs"
    then show "f (xs ! i) = i" using snoc.prems [rule_format, of i] by (simp add: nth_append)
  qed
  have x: "f x = length xs" using snoc.prems [rule_format, of "length xs"] by simp
  have "filter (\<lambda>i. R ((xs @ [x]) ! i)) [0..<length xs] = filter (\<lambda>i. R (xs ! i)) [0..<length xs]"
    by (rule filter_cong) (simp_all add: nth_append)
  then show ?case using snoc.IH [OF a] x by simp
qed

lemma run_tasks_calls:
  assumes step: "\<And>k s. calls (snd (task k s)) = calls s @ [c k (fst (task k s))]"
  shows "calls (snd (run_tasks order task m))
           = calls m @ map (\<lambda>(k, r). c k r) (fst (run_tasks order task m))"
proof (induction order arbitrary: m)
  case Nil
  then show ?case by simp
next
  case (Cons k order)
  obtain r m1 where t: "task k m = (r, m1)" by (cases "task k m")
  obtain rs m2 where rt: "run_tasks order task m1 = (rs, m2)" by (cases "run_tasks order task m1")
  have c1: "calls m1 = calls m @ [c k r]" using step [of k m] t by simp
  have c2: "calls m2 = calls m1 @ map (\<lambda>(k, r). c k r) rs" using Cons.IH [of m1] rt by simp
  show ?case using t rt c1 c2 by simp
qed

lemma compensation_task_calls:
  "calls (snd (case invoke i pos p s of (r, m1) \<Rightarrow> (outcome_result r, m1)))
     = calls s @ [Call i pos (\<not> isl (fst (case invoke i pos p s of (r, m1) \<Rightarrow> (outcome_result r, m1))))]"
proof -
  obtain r m1 where inv: "invoke i pos p s = (r, m1)" by (cases "invoke i pos p s")
  then have "calls m1 = calls s @ [Call i pos (is_returned r)]"
    using invoke_calls [of i pos p s] by simp
  moreover have "is_returned r = (\<not> isl (outcome_result r))"
    by (cases r) (simp_all add: outcome_result_def)
  ultimately show ?thesis using inv by simp
qed

lemma submit_compensations_calls:
  fixes m :: "('a, 'v, 'w) machine"
  shows "\<exists>finished.
     calls (snd (submit_compensations sched success_index m))
       = calls m @ map (\<lambda>(k, r). Call (compensation_indices (self m) success_index ! k)
                                   (length (operations (self m)
                                      ! (compensation_indices (self m) success_index ! k)) - 1)
                                   (\<not> isl r)) finished
     \<and> map fst finished = run_order sched (length (compensation_indices (self m) success_index))
     \<and> map function_future (fst (submit_compensations sched success_index m))
         = map (result finished) [0..<length (compensation_indices (self m) success_index)]"
proof -
  let ?ops = "operations (self m)"
  let ?cs = "compensation_indices (self m) success_index"
  let ?task = "\<lambda>k m'. case invoke (?cs ! k) (length (?ops ! (?cs ! k)) - 1) (last (?ops ! (?cs ! k))) m' of
                        (r, m1) \<Rightarrow> (outcome_result r, m1)"
  let ?order = "run_order sched (length ?cs)"
  obtain finished m1 where rt: "run_tasks ?order ?task m = (finished, m1)"
    by (cases "run_tasks ?order ?task m")
  have "calls (snd (run_tasks ?order ?task m))
          = calls m @ map (\<lambda>(k, r). Call (?cs ! k) (length (?ops ! (?cs ! k)) - 1) (\<not> isl r))
                        (fst (run_tasks ?order ?task m))"
    by (rule run_tasks_calls) (rule compensation_task_calls)
  then have c: "calls m1
          = calls m @ map (\<lambda>(k, r). Call (?cs ! k) (length (?ops ! (?cs ! k)) - 1) (\<not> isl r)) finished"
    using rt by simp
  have k: "map fst finished = ?order" using run_tasks_keys [of ?order ?task m] rt by simp
  have sc: "submit_compensations sched success_index m
      = (map (\<lambda>k. \<lparr>function_index = ?cs ! k, function_future = result finished k,
                     function_name = fname (func (last (?ops ! (?cs ! k))))\<rparr>) [0..<length ?cs], m1)"
    using rt by (simp add: submit_compensations_def Let_def)
  have f: "map function_future (fst (submit_compensations sched success_index m))
         = map (result finished) [0..<length ?cs]"
    unfolding sc by (simp add: comp_def)
  have "calls (snd (submit_compensations sched success_index m))
       = calls m @ map (\<lambda>(k, r). Call (?cs ! k) (length (?ops ! (?cs ! k)) - 1) (\<not> isl r)) finished"
    using c sc by simp
  with k f show ?thesis by blast
qed

lemma compensation_slots:
  fixes m :: "('a, 'v, 'w) machine"
  shows "\<exists>comp_calls.
     calls (snd (submit_compensations sched success_index m)) = calls m @ comp_calls
     \<and> mset (map slot comp_calls)
         = mset (map (\<lambda>i. (i, 1)) (compensation_indices (self m) success_index))"
proof -
  let ?ops = "operations (self m)"
  let ?cs = "compensation_indices (self m) success_index"
  let ?g = "\<lambda>k. (?cs ! k, length (?ops ! (?cs ! k)) - 1)"
  obtain finished :: "(nat \<times> (pyexception + 'v)) list" where
    c: "calls (snd (submit_compensations sched success_index m))
       = calls m @ map (\<lambda>(k, r). Call (?cs ! k) (length (?ops ! (?cs ! k)) - 1) (\<not> isl r)) finished"
    and k: "map fst finished = run_order sched (length ?cs)"
    using submit_compensations_calls [of sched success_index m] by blast
  let ?calls = "map (\<lambda>(k, r). Call (?cs ! k) (length (?ops ! (?cs ! k)) - 1) (\<not> isl r)) finished"
  have "map slot ?calls = map ?g (map fst finished)"
    by (simp add: slot_def case_prod_unfold)
  then have "mset (map slot ?calls) = image_mset ?g (mset (run_order sched (length ?cs)))"
    using k by simp
  also have "\<dots> = mset (map ?g [0..<length ?cs])"
    by (simp add: mset_run_order)
  also have "map ?g [0..<length ?cs] = map (\<lambda>k. (?cs ! k, 1)) [0..<length ?cs]"
  proof (rule map_cong [OF refl])
    fix k assume "k \<in> set [0..<length ?cs]"
    then have "?cs ! k \<in> set ?cs" by simp
    then have "length (?ops ! (?cs ! k)) = 2" by (simp add: compensation_indices_def)
    then show "?g k = (?cs ! k, 1)" by simp
  qed
  also have "map (\<lambda>k. (?cs ! k, 1::nat)) [0..<length ?cs] = map (\<lambda>i. (i, 1)) ?cs"
  proof -
    have "map (\<lambda>i. (i, 1::nat)) (map ((!) ?cs) [0..<length ?cs]) = map (\<lambda>i. (i, 1)) ?cs"
      by (simp only: map_nth)
    then show ?thesis by (simp add: comp_def)
  qed
  finally show ?thesis using c by blast
qed

lemmas pool_defs = submit_actions_def run_order_def result_def prepare_thread_result_def
  choreography_execute_def execute_choreography_compensation_def submit_compensations_def
  compensation_indices_def outcome_result_def Let_def

text \<open>
  Claim C10. In a \<open>choreography_execute\<close> run in which at least one action fails for good (so
  also when two or more do), whatever the order in which the pool runs the tasks: the
  \<open>SagaException\<close> raised reports the error and the function name of one failed action, the
  one with the lowest index in the registry. \<open>threads\<close> are the futures of the action tasks
  in the order of submission, which is the order of declaration.
\<close>

theorem first_failure_reported:
  assumes ne: "operations (self m) \<noteq> []"
    and sa: "submit_actions sched m = (threads, m1)"
    and failed: "\<exists>t\<in>set threads. isl (function_future t)"
  shows "\<exists>k e exc m2.
           k < length (operations (self m))
           \<and> function_future (threads ! k) = Inl e
           \<and> (\<forall>j<k. \<not> isl (function_future (threads ! j)))
           \<and> choreography_execute sched sched_comp m = (Inl exc, m2)
           \<and> operation_error exc = Caught e
           \<and> operation_name exc = Some (fname (func (operations (self m) ! k ! 0)))"
proof -
  let ?Q = "\<lambda>t. isl (function_future t)"
  let ?mk = "\<lambda>t. \<lparr>failed_function_index = function_index t,
                   failed_function_name = function_name t, error = projl (function_future t)\<rparr>"
  let ?texc = "\<lparr>success_results = map function_index (filter (\<lambda>t. \<not> ?Q t) threads),
                failed_results = map ?mk (filter ?Q threads)\<rparr>"
  have len: "length threads = length (operations (self m))"
    using submit_actions_length [of sched m] sa by simp
  have ptr: "prepare_thread_result threads = Inl ?texc"
    using failed by (simp add: prepare_thread_result_eq)
  have nonempty: "filter ?Q threads \<noteq> []" using failed by (simp add: filter_empty_conv)
  then obtain k where k: "k < length threads" "hd (filter ?Q threads) = threads ! k"
    "?Q (threads ! k)" "\<forall>j<k. \<not> ?Q (threads ! j)"
    using first_of_filter [of ?Q threads] by blast
  obtain e where e: "function_future (threads ! k) = Inl e"
    using k(3) by (cases "function_future (threads ! k)") auto
  have hd: "hd (failed_results ?texc) = ?mk (threads ! k)"
    using nonempty k(2) by (simp add: hd_map)
  have name: "function_name (threads ! k) = fname (func (operations (self m) ! k ! 0))"
    using submit_actions_nth [of k m sched] k(1) len sa by simp
  obtain cs ce m2 where comp:
    "execute_choreography_compensation sched_comp (success_results ?texc) m1 = ((cs, ce), m2)"
    by (cases "execute_choreography_compensation sched_comp (success_results ?texc) m1") auto
  let ?exc = "SagaException (Caught e) (Some (fname (func (operations (self m) ! k ! 0)))) cs ce"
  have "choreography_execute sched sched_comp m = (Inl ?exc, m2)"
    using ne sa ptr comp hd e name by (simp add: choreography_execute_def)
  moreover have "operation_error ?exc = Caught e"
    "operation_name ?exc = Some (fname (func (operations (self m) ! k ! 0)))"
    by (simp_all add: SagaException_def)
  ultimately show ?thesis using k len e by (metis (no_types, lifting))
qed

theorem first_failure_reported_witness:
  "fst (choreography_execute [2, 1, 0] [] (start (PyInt 1) two_failures))
     = Inl (SagaException (Caught (PyException ''ValueError'' ''reserve failed''))
              (Some ''reserve'') (Some [2]) None)
   \<and> map function_future (fst (submit_actions [2, 1, 0] (start (PyInt 1) two_failures)))
     = [Inr 1, Inl (PyException ''ValueError'' ''reserve failed''),
        Inl (PyException ''ValueError'' ''ship failed'')]"
proof -
  let ?m = "start (PyInt 1) two_failures"
  let ?threads = "[\<lparr>function_index = 0, function_future = Inr 1, function_name = ''debit''\<rparr>,
       \<lparr>function_index = 1, function_future = Inl (PyException ''ValueError'' ''reserve failed''),
        function_name = ''reserve''\<rparr>,
       \<lparr>function_index = 2, function_future = Inl (PyException ''ValueError'' ''ship failed''),
        function_name = ''ship''\<rparr>]"
  let ?m1 = "\<lparr>self = \<lparr>retry_attempts = PyInt 1, operations = two_failures, saga_results = [1]\<rparr>,
       world = 3, calls = [Call 2 0 False, Call 1 0 False, Call 0 0 True]\<rparr>"
  have sa: "submit_actions [2, 1, 0] ?m = (?threads, ?m1)"
    by (simp add: run_defs pool_defs two_failures_def numeral_3_eq_3 numeral_2_eq_2)
  have ne: "operations (self ?m) \<noteq> []" by (simp add: start_def two_failures_def)
  have failed: "\<exists>t\<in>set ?threads. isl (function_future t)" by simp
  have ex: "fst (choreography_execute [2, 1, 0] [] ?m)
     = Inl (SagaException (Caught (PyException ''ValueError'' ''reserve failed''))
              (Some ''reserve'') (Some [2]) None)"
    by (simp add: run_defs pool_defs two_failures_def numeral_3_eq_3 numeral_2_eq_2)
  from first_failure_reported [OF ne sa failed, of "[]"] ex sa show ?thesis by simp
qed



end
